theory Spec2Isabelle
  imports Main
begin

section \<open>JavaScript values and the parsed tree\<close>

text \<open>
  The entry points are called with JavaScript values. A content argument is a string, or
  it is absent (\<open>null\<close> or \<open>undefined\<close>). Strings are lists of code units; only
  code units below 256 are represented.
\<close>

datatype jsval = Undefined | Null | Str string

text \<open>The only exception the repository's own code can raise: a property read or a
  method call on \<open>null\<close>/\<open>undefined\<close>.\<close>

datatype error = TypeError

text \<open>
  A parse5 tree. Every node has a \<open>nodeName\<close>: one of the reserved names
  \<open>#document\<close>, \<open>#documentType\<close>, \<open>#comment\<close>, \<open>#text\<close>, or the tag name of
  an element (tag names begin with a letter, so they never collide with the reserved names;
  the type keeps the two apart). Only elements have \<open>attrs\<close>, only documents and
  elements have \<open>childNodes\<close>, only text nodes have \<open>value\<close>.
\<close>

datatype nname = HashDocument | HashDocumentType | HashComment | HashText | Tag string

datatype node =
    Document "node list"
  | DocumentType string
  | CommentNode string
  | TextNode string
  | Element string "(string \<times> string) list" "node list"

fun nodeName :: "node \<Rightarrow> nname" where
  "nodeName (Document cs) = HashDocument"
| "nodeName (DocumentType n) = HashDocumentType"
| "nodeName (CommentNode d) = HashComment"
| "nodeName (TextNode v) = HashText"
| "nodeName (Element t as cs) = Tag t"

text \<open>\<open>node.attrs\<close>: \<open>None\<close> is \<open>undefined\<close>.\<close>

fun attrs :: "node \<Rightarrow> (string \<times> string) list option" where
  "attrs (Element t as cs) = Some as"
| "attrs _ = None"

text \<open>\<open>node.childNodes || []\<close>.\<close>

fun childNodesOrEmpty :: "node \<Rightarrow> node list" where
  "childNodesOrEmpty (Document cs) = cs"
| "childNodesOrEmpty (Element t as cs) = cs"
| "childNodesOrEmpty _ = []"

text \<open>\<open>xs[i]\<close> on a JavaScript array: \<open>undefined\<close> beyond the end.\<close>

definition at_index :: "'a list \<Rightarrow> nat \<Rightarrow> 'a option" where
  "at_index xs i = (if i < length xs then Some (xs ! i) else None)"

section \<open>String primitives\<close>

text \<open>The white space of \<open>\s\<close> and of \<open>String.prototype.trim\<close>, among the code units
  below 256: tab, line feed, vertical tab, form feed, carriage return, space, no-break space.\<close>

definition is_ws :: "char \<Rightarrow> bool" where
  "is_ws c = (c \<in> set [CHR 0x09, CHR 0x0A, CHR 0x0B, CHR 0x0C, CHR 0x0D, CHR 0x20, CHR 0xA0])"

definition trim :: "string \<Rightarrow> string" where
  "trim s = rev (dropWhile is_ws (rev (dropWhile is_ws s)))"

text \<open>
  \<open>html.replace(/>\s+</g, '><')\<close>: scanning from the left, a greater-than sign
  followed by at least one white space character and then a less-than sign is replaced by
  the two signs alone, and scanning resumes after the match. The greedy \<open>\s+\<close> takes
  the whole run of white space; giving some of it back cannot make the match succeed.
\<close>

function replace_gt_ws_lt :: "string \<Rightarrow> string" where
  "replace_gt_ws_lt [] = []"
| "replace_gt_ws_lt (c # cs) =
     (if c = CHR ''>'' \<and> cs \<noteq> [] \<and> is_ws (hd cs) then
        (case dropWhile is_ws cs of
           d # ds \<Rightarrow> if d = CHR ''<'' then CHR ''>'' # CHR ''<'' # replace_gt_ws_lt ds
                     else c # replace_gt_ws_lt cs
         | [] \<Rightarrow> c # replace_gt_ws_lt cs)
      else c # replace_gt_ws_lt cs)"
  by pat_completeness auto
termination
proof (relation "measure length")
  fix c :: char and cs x21 x22
  assume "dropWhile is_ws cs = x21 # x22"
  then have "length (x21 # x22) \<le> length cs"
    using length_dropWhile_le [of is_ws cs] by simp
  then show "(x22, c # cs) \<in> measure length" by simp
qed auto

text \<open>\<open>String(i)\<close> for an array index: its decimal digits.\<close>

definition digit :: "nat \<Rightarrow> char" where
  "digit d = ''0123456789'' ! d"

fun String_of_nat :: "nat \<Rightarrow> string" where
  "String_of_nat n = (if n < 10 then [digit n] else String_of_nat (n div 10) @ [digit (n mod 10)])"

declare String_of_nat.simps [simp del]

text \<open>\<open>path ? `${path}/${i}` : String(i)\<close>: the empty string is falsy.\<close>

definition childPath :: "string \<Rightarrow> nat \<Rightarrow> string" where
  "childPath path i = (if path \<noteq> [] then path @ ''/'' @ String_of_nat i else String_of_nat i)"

section \<open>The JavaScript \<open>Map\<close>\<close>

text \<open>
  A \<open>Map\<close> is an association list in insertion order with unique keys. \<open>set\<close> on a key
  that is present replaces its value in place; \<open>new Map(entries)\<close> sets the entries from
  left to right, so a repeated key keeps its first position and its last value.
\<close>

fun Map_set :: "('k \<times> 'v) list \<Rightarrow> 'k \<Rightarrow> 'v \<Rightarrow> ('k \<times> 'v) list" where
  "Map_set [] k v = [(k, v)]"
| "Map_set ((k', v') # m) k v = (if k' = k then (k, v) # m else (k', v') # Map_set m k v)"

definition new_Map :: "('k \<times> 'v) list \<Rightarrow> ('k \<times> 'v) list" where
  "new_Map entries = foldl (\<lambda>m (k, v). Map_set m k v) [] entries"

definition Map_has :: "('k \<times> 'v) list \<Rightarrow> 'k \<Rightarrow> bool" where
  "Map_has m k = (k \<in> set (map fst m))"

definition Map_get :: "('k \<times> 'v) list \<Rightarrow> 'k \<Rightarrow> 'v option" where
  "Map_get m k = map_of m k"

section \<open>Differences\<close>

text \<open>A part returned by the character-diff primitive: \<open>{value, added, removed}\<close>.\<close>

record part =
  pvalue :: string
  added :: bool
  removed :: bool

datatype changeType = CAdded | CRemoved | CUnchanged

datatype change = Change (ctype: changeType) (content: string)

text \<open>\<open>part => ({type: part.added ? 'added' : part.removed ? 'removed' : 'unchanged',
  content: part.value})\<close>\<close>

definition toChange :: "part \<Rightarrow> change" where
  "toChange p = Change (if added p then CAdded else if removed p then CRemoved else CUnchanged)
                       (pvalue p)"

text \<open>
  The structural entries, as \<open>seperated.js\<close> pushes them on \<open>structuralDifferences\<close>:
  the constructor is the \<open>type\<close> field, the first argument is \<open>path\<close>. The \<open>node\<close>
  of an \<open>added\<close>/\<open>removed\<close> entry is whatever the present side holds
  (\<open>None\<close> is \<open>undefined\<close>).
\<close>

datatype sdiff =
    Added string "node option"
  | Removed string "node option"
  | Changed string nname nname
  | AttributeRemoved string string string
  | AttributeChanged string string string string
  | AttributeAdded string string string

text \<open>An entry of \<open>textDifferences\<close> in \<open>seperated.js\<close>: \<open>{path, differences}\<close>.\<close>

datatype tdiff = TextDifference string "change list"

text \<open>
  An entry of the unified \<open>differences\<close> list of \<open>combined.js\<close> and \<open>preview.js\<close>:
  a structural entry with \<open>kind: 'structural'\<close>, or \<open>{path, changes, kind: 'text'}\<close>.
  The entry of flat-text mode has no \<open>path\<close> field (\<open>None\<close>).
\<close>

datatype difference = Structural sdiff | Text "string option" "change list"

datatype kindTag = KStructural | KText

fun kind :: "difference \<Rightarrow> kindTag" where
  "kind (Structural d) = KStructural"
| "kind (Text p cs) = KText"

fun sdiff_path :: "sdiff \<Rightarrow> string" where
  "sdiff_path (Added p n) = p"
| "sdiff_path (Removed p n) = p"
| "sdiff_path (Changed p a b) = p"
| "sdiff_path (AttributeRemoved p k v) = p"
| "sdiff_path (AttributeChanged p k v w) = p"
| "sdiff_path (AttributeAdded p k v) = p"

text \<open>\<open>diff.path\<close>: \<open>None\<close> is \<open>undefined\<close>.\<close>

fun diff_path :: "difference \<Rightarrow> string option" where
  "diff_path (Structural d) = Some (sdiff_path d)"
| "diff_path (Text p cs) = p"

section \<open>The three checks of \<open>compareNodes\<close> on a present pair\<close>

text \<open>
  The bodies of \<open>compareNodes\<close> in the three files are the same statements, pushing on
  different arrays. Each check below returns the entries it pushes, in order.
\<close>

text \<open>\<open>if (oldNode.nodeName !== newNode.nodeName && oldNode.nodeName !== '#text')\<close>\<close>

definition tagCheck :: "node \<Rightarrow> node \<Rightarrow> string \<Rightarrow> sdiff list" where
  "tagCheck oldNode newNode path =
     (if nodeName oldNode \<noteq> nodeName newNode \<and> nodeName oldNode \<noteq> HashText
      then [Changed path (nodeName oldNode) (nodeName newNode)] else [])"

text \<open>\<open>if (oldNode.nodeName === '#text' && newNode.nodeName === '#text')\<close>: the nodes
  named \<open>#text\<close> are the text nodes, and they carry \<open>value\<close>. The result is the pair
  of \<open>path\<close> and the mapped parts, when something is pushed.\<close>

definition textCheck ::
  "(string \<Rightarrow> string \<Rightarrow> part list) \<Rightarrow> node \<Rightarrow> node \<Rightarrow> string \<Rightarrow> (string \<times> change list) list" where
  "textCheck diffChars oldNode newNode path =
     (case (oldNode, newNode) of
        (TextNode oldValue, TextNode newValue) \<Rightarrow>
          (let oldText = trim oldValue; newText = trim newValue in
           if oldText \<noteq> newText
           then [(path, map toChange (diffChars oldText newText))] else [])
      | _ \<Rightarrow> [])"

text \<open>The two loops over the attribute maps.\<close>

definition attrLoops :: "string \<Rightarrow> (string \<times> string) list \<Rightarrow> (string \<times> string) list \<Rightarrow> sdiff list" where
  "attrLoops path oldAttrs newAttrs =
     concat (map (\<lambda>(name, oldValue).
        if \<not> Map_has newAttrs name then [AttributeRemoved path name oldValue]
        else (case Map_get newAttrs name of
                Some newValue \<Rightarrow>
                  if newValue \<noteq> oldValue then [AttributeChanged path name oldValue newValue] else []
              | None \<Rightarrow> [])) oldAttrs)
     @ concat (map (\<lambda>(name, value).
        if \<not> Map_has oldAttrs name then [AttributeAdded path name value] else []) newAttrs)"

text \<open>\<open>if (oldNode.attrs && newNode.attrs)\<close>: an array is truthy, also when empty.\<close>

definition attrCheck :: "node \<Rightarrow> node \<Rightarrow> string \<Rightarrow> sdiff list" where
  "attrCheck oldNode newNode path =
     (case (attrs oldNode, attrs newNode) of
        (Some oldA, Some newA) \<Rightarrow> attrLoops path (new_Map oldA) (new_Map newA)
      | _ \<Rightarrow> [])"

section \<open>\<open>compareNodes\<close> of \<open>combined.js\<close> and \<open>preview.js\<close>\<close>

text \<open>
  The function only ever pushes on \<open>differences\<close>; the model returns the entries pushed
  by one call, in order. The first parameter is the character-diff primitive.
\<close>

fun osize :: "node option \<Rightarrow> nat" where
  "osize None = 0"
| "osize (Some n) = Suc (size n)"

lemma osize_child: "osize (at_index (childNodesOrEmpty n) i) < osize (Some n)"
proof (cases "i < length (childNodesOrEmpty n)")
  case True
  then have "childNodesOrEmpty n ! i \<in> set (childNodesOrEmpty n)" by simp
  then have "size (childNodesOrEmpty n ! i) < Suc (size_list size (childNodesOrEmpty n))"
    by (simp add: size_list_estimation' less_Suc_eq_le)
  with True show ?thesis by (cases n) (simp_all add: at_index_def)
next
  case False
  then show ?thesis by (simp add: at_index_def)
qed

function compareNodes ::
  "(string \<Rightarrow> string \<Rightarrow> part list) \<Rightarrow> node option \<Rightarrow> node option \<Rightarrow> string \<Rightarrow> difference list" where
  "compareNodes dc None newNode path = [Structural (Added path newNode)]"
| "compareNodes dc (Some oldNode) None path = [Structural (Removed path (Some oldNode))]"
| "compareNodes dc (Some oldNode) (Some newNode) path =
     map Structural (tagCheck oldNode newNode path)
     @ map (\<lambda>(p, cs). Text (Some p) cs) (textCheck dc oldNode newNode path)
     @ map Structural (attrCheck oldNode newNode path)
     @ (let oldChildren = childNodesOrEmpty oldNode;
            newChildren = childNodesOrEmpty newNode;
            maxLength = max (length oldChildren) (length newChildren)
        in concat (map (\<lambda>i. compareNodes dc (at_index oldChildren i) (at_index newChildren i)
                                (childPath path i)) [0..<maxLength]))"
  by pat_completeness auto

termination
proof (relation "measure (\<lambda>(dc, oldNode, newNode, path). osize oldNode + osize newNode)",
       goal_cases)
  case 1
  show ?case by simp
next
  case (2 dc oldNode newNode path oldChildren newChildren maxLength i)
  then show ?case
    using osize_child [of oldNode i] osize_child [of newNode i] by simp
qed

section \<open>The external collaborators\<close>

text \<open>
  \<open>parse5.parse\<close> and \<open>Diff.diffChars\<close> are libraries, not code of this repository:
  they are parameters of the model. \<open>parse\<close> returns a tree for every string.
  \<open>diffChars\<close> is the primitive on two strings; \<open>diffCharsAbsent\<close> is what the primitive
  does when an argument is not a string, which may be to raise.
\<close>

record lib =
  parse :: "string \<Rightarrow> node"
  diffChars :: "string \<Rightarrow> string \<Rightarrow> part list"
  diffCharsAbsent :: "jsval \<Rightarrow> jsval \<Rightarrow> error + part list"

definition callDiffChars :: "lib \<Rightarrow> jsval \<Rightarrow> jsval \<Rightarrow> error + part list" where
  "callDiffChars L x y =
     (case (x, y) of (Str a, Str b) \<Rightarrow> Inr (diffChars L a b) | _ \<Rightarrow> diffCharsAbsent L x y)"

text \<open>
  The contract of the character-diff primitive on strings: the parts that are not removed
  spell the new string, the parts that are not added spell the old string.
\<close>

definition edit_script :: "string \<Rightarrow> string \<Rightarrow> part list \<Rightarrow> bool" where
  "edit_script a b ps =
     (concat (map pvalue (filter (\<lambda>p. \<not> added p) ps)) = a \<and>
      concat (map pvalue (filter (\<lambda>p. \<not> removed p) ps)) = b)"

definition diffChars_contract :: "lib \<Rightarrow> bool" where
  "diffChars_contract L = (\<forall>a b. edit_script a b (diffChars L a b))"

section \<open>\<open>combined.js\<close>: \<open>compareHTML\<close>, \<open>compareText\<close>, \<open>diff\<close>\<close>

record result =
  changed :: bool
  differences :: "difference list"

text \<open>\<open>html.replace(/>\s+</g, '><').trim()\<close>: a method call on an absent value raises.\<close>

definition normalizeHtml :: "jsval \<Rightarrow> error + string" where
  "normalizeHtml html =
     (case html of Str s \<Rightarrow> Inr (trim (replace_gt_ws_lt s)) | _ \<Rightarrow> Inl TypeError)"

definition compareHTML :: "lib \<Rightarrow> jsval \<Rightarrow> jsval \<Rightarrow> error + result" where
  "compareHTML L oldHtml newHtml =
     (case normalizeHtml oldHtml of
        Inl e \<Rightarrow> Inl e
      | Inr oldN \<Rightarrow>
        (case normalizeHtml newHtml of
           Inl e \<Rightarrow> Inl e
         | Inr newN \<Rightarrow>
             if oldN = newN then Inr \<lparr>changed = False, differences = []\<rparr>
             else
               (let oldAst = parse L oldN;
                    newAst = parse L newN;
                    ds = compareNodes (diffChars L) (Some oldAst) (Some newAst) []
                in Inr \<lparr>changed = (length ds > 0), differences = ds\<rparr>)))"

definition compareText :: "lib \<Rightarrow> jsval \<Rightarrow> jsval \<Rightarrow> error + result" where
  "compareText L oldText newText =
     (if oldText = newText then Inr \<lparr>changed = False, differences = []\<rparr>
      else
        (case callDiffChars L oldText newText of
           Inl e \<Rightarrow> Inl e
         | Inr charDiffs \<Rightarrow>
             Inr \<lparr>changed = list_ex (\<lambda>p. added p \<or> removed p) charDiffs,
                  differences = [Text None (map toChange charDiffs)]\<rparr>))"

text \<open>\<open>regex.test(x)\<close> converts its argument to a string first.\<close>

fun ToString :: "jsval \<Rightarrow> string" where
  "ToString Undefined = ''undefined''"
| "ToString Null = ''null''"
| "ToString (Str s) = s"

definition is_letter :: "char \<Rightarrow> bool" where
  "is_letter c = ((97 \<le> (of_char c :: nat) \<and> (of_char c :: nat) \<le> 122) \<or>
                  (65 \<le> (of_char c :: nat) \<and> (of_char c :: nat) \<le> 90))"

text \<open>\<open>/<[a-z][\s\S]*>/i.test(s)\<close>: somewhere a less-than sign, directly followed by an
  ASCII letter of either case, and a greater-than sign anywhere after that letter.\<close>

fun htmlRegex_test :: "string \<Rightarrow> bool" where
  "htmlRegex_test (c # d # rest) =
     ((c = CHR ''<'' \<and> is_letter d \<and> CHR ''>'' \<in> set rest) \<or> htmlRegex_test (d # rest))"
| "htmlRegex_test _ = False"

definition diff :: "lib \<Rightarrow> jsval \<Rightarrow> jsval \<Rightarrow> error + result" where
  "diff L oldContent newContent =
     (let isHtml = (htmlRegex_test (ToString oldContent) \<or> htmlRegex_test (ToString newContent))
      in if isHtml then compareHTML L oldContent newContent
         else compareText L oldContent newContent)"

section \<open>\<open>seperated.js\<close>: \<open>compareNodes\<close> and \<open>compareHTML\<close> with two lists\<close>

text \<open>The entries one call pushes on \<open>structuralDifferences\<close> and on \<open>textDifferences\<close>.\<close>

function sep_compareNodes ::
  "(string \<Rightarrow> string \<Rightarrow> part list) \<Rightarrow> node option \<Rightarrow> node option \<Rightarrow> string
     \<Rightarrow> sdiff list \<times> tdiff list" where
  "sep_compareNodes dc None newNode path = ([Added path newNode], [])"
| "sep_compareNodes dc (Some oldNode) None path = ([Removed path (Some oldNode)], [])"
| "sep_compareNodes dc (Some oldNode) (Some newNode) path =
     (let oldChildren = childNodesOrEmpty oldNode;
          newChildren = childNodesOrEmpty newNode;
          maxLength = max (length oldChildren) (length newChildren);
          kids = map (\<lambda>i. sep_compareNodes dc (at_index oldChildren i) (at_index newChildren i)
                                (childPath path i)) [0..<maxLength]
      in (tagCheck oldNode newNode path @ attrCheck oldNode newNode path @ concat (map fst kids),
          map (\<lambda>(p, cs). TextDifference p cs) (textCheck dc oldNode newNode path)
            @ concat (map snd kids)))"
  by pat_completeness auto
termination
proof (relation "measure (\<lambda>(dc, oldNode, newNode, path). osize oldNode + osize newNode)",
       goal_cases)
  case 1
  show ?case by simp
next
  case (2 dc oldNode newNode path oldChildren newChildren maxLength i)
  then show ?case
    using osize_child [of oldNode i] osize_child [of newNode i] by simp
qed

record sep_result =
  sep_changed :: bool
  structuralDifferences :: "sdiff list"
  textDifferences :: "tdiff list"

definition sep_compareHTML :: "lib \<Rightarrow> jsval \<Rightarrow> jsval \<Rightarrow> error + sep_result" where
  "sep_compareHTML L oldHtml newHtml =
     (case normalizeHtml oldHtml of
        Inl e \<Rightarrow> Inl e
      | Inr oldN \<Rightarrow>
        (case normalizeHtml newHtml of
           Inl e \<Rightarrow> Inl e
         | Inr newN \<Rightarrow>
             if oldN = newN
             then Inr \<lparr>sep_changed = False, structuralDifferences = [], textDifferences = []\<rparr>
             else
               (let oldAst = parse L oldN;
                    newAst = parse L newN;
                    (sds, tds) = sep_compareNodes (diffChars L) (Some oldAst) (Some newAst) []
                in Inr \<lparr>sep_changed = (length sds > 0 \<or> length tds > 0),
                        structuralDifferences = sds, textDifferences = tds\<rparr>)))"

section \<open>\<open>preview.js\<close>: \<open>escapeHtml\<close>, \<open>renderNode\<close>, \<open>renderDiffPreview\<close>\<close>

text \<open>\<open>text.replace(/c/g, r)\<close> for a single character \<open>c\<close>.\<close>

definition replaceAll :: "char \<Rightarrow> string \<Rightarrow> string \<Rightarrow> string" where
  "replaceAll c r text = concat (map (\<lambda>x. if x = c then r else [x]) text)"

definition escapeHtml :: "string \<Rightarrow> string" where
  \<open>escapeHtml text =
     replaceAll (CHR 0x27) ''&#039;''
       (replaceAll (CHR 0x22) ''&quot;''
          (replaceAll (CHR ''>'') ''&gt;''
             (replaceAll (CHR ''<'') ''&lt;''
                (replaceAll (CHR ''&'') ''&amp;'' text))))\<close>

fun typeString :: "changeType \<Rightarrow> string" where
  "typeString CAdded = ''added''"
| "typeString CRemoved = ''removed''"
| "typeString CUnchanged = ''unchanged''"

fun nameString :: "nname \<Rightarrow> string" where
  "nameString HashDocument = ''#document''"
| "nameString HashDocumentType = ''#documentType''"
| "nameString HashComment = ''#comment''"
| "nameString HashText = ''#text''"
| "nameString (Tag t) = t"

text \<open>\<open>`<span class="diff-${change.type}">${escapeHtml(change.content)}</span>`\<close>\<close>

definition renderChange :: "change \<Rightarrow> string" where
  \<open>renderChange c =
     ''<span class="diff-'' @ typeString (ctype c) @ ''">'' @ escapeHtml (content c) @ ''</span>''\<close>

text \<open>\<open>` ${attr.name}="${attr.value}"`\<close>\<close>

definition renderAttr :: "string \<times> string \<Rightarrow> string" where
  \<open>renderAttr a = '' '' @ fst a @ ''="'' @ snd a @ ''"''\<close>

text \<open>\<open>xs.map(f).join('')\<close> where \<open>f\<close> may raise: the first exception wins.\<close>

fun joinAll :: "(error + string) list \<Rightarrow> error + string" where
  "joinAll [] = Inr []"
| "joinAll (r # rs) =
     (case r of
        Inl e \<Rightarrow> Inl e
      | Inr s \<Rightarrow> (case joinAll rs of Inl e \<Rightarrow> Inl e | Inr t \<Rightarrow> Inr (s @ t)))"

text \<open>
  \<open>renderNode\<close>, with the \<open>diffMap\<close> it closes over as first parameter. A document
  fragment never occurs in the \<open>childNodes\<close> of a parsed document, so the test for
  \<open>#document-fragment\<close> has no case here. In the last branch \<open>diff.type\<close> is read:
  a text entry has no \<open>type\<close>, and \<open>diff.type.startsWith\<close> raises on it.
\<close>

lemma size_child: "child \<in> set (childNodesOrEmpty node) \<Longrightarrow> size child < size node"
  by (cases node) (auto simp: less_Suc_eq_le size_list_estimation')

function renderNode :: "(string option \<times> difference) list \<Rightarrow> node \<Rightarrow> string \<Rightarrow> error + string" where
  "renderNode diffMap node path =
     (if nodeName node = HashText then
        (case (Map_get diffMap (Some path), node) of
           (Some (Text p changes), _) \<Rightarrow> Inr (concat (map renderChange changes))
         | (_, TextNode v) \<Rightarrow> Inr (escapeHtml v)
         | _ \<Rightarrow> Inl TypeError)
      else if nodeName node = HashDocument then
        joinAll (map (\<lambda>(child, i). renderNode diffMap child (childPath path i))
                     (zip (childNodesOrEmpty node) [0..<length (childNodesOrEmpty node)]))
      else
        (let attrsS = (case attrs node of Some as \<Rightarrow> concat (map renderAttr as) | None \<Rightarrow> [])
         in case Map_get diffMap (Some path) of
              Some (Text p changes) \<Rightarrow> Inl TypeError
            | _ \<Rightarrow>
               (case joinAll (map (\<lambda>(child, i). renderNode diffMap child (childPath path i))
                       (zip (childNodesOrEmpty node) [0..<length (childNodesOrEmpty node)])) of
                  Inl e \<Rightarrow> Inl e
                | Inr children \<Rightarrow>
                    Inr (''<'' @ nameString (nodeName node) @ attrsS @ ''>'' @ children
                         @ ''</'' @ nameString (nodeName node) @ ''>''))))"
  by pat_completeness auto

termination
  by (relation "measure (\<lambda>(diffMap, node, path). size node)")
     (auto dest!: set_zip_leftD size_child)

declare renderNode.simps [simp del]

text \<open>
  \<open>renderDiffPreview\<close> on two strings. \<open>diffMap\<close> is
  \<open>new Map(result.differences.map(diff => [diff.path, diff]))\<close>.
\<close>

definition renderDiffPreview :: "lib \<Rightarrow> string \<Rightarrow> string \<Rightarrow> error + string" where
  \<open>renderDiffPreview L oldContent newContent =
     (case diff L (Str oldContent) (Str newContent) of
        Inl e \<Rightarrow> Inl e
      | Inr result \<Rightarrow>
          if \<not> changed result then Inr (''<div class="diff-preview">'' @ oldContent @ ''</div>'')
          else
            (let doc = parse L newContent;
                 diffMap = new_Map (map (\<lambda>d. (diff_path d, d)) (differences result))
             in case renderNode diffMap doc [] of
                  Inl e \<Rightarrow> Inl e
                | Inr s \<Rightarrow> Inr (''<div class="diff-preview">'' @ s @ ''</div>'')))\<close>

section \<open>Views and instances used in the statements\<close>

text \<open>The derived flat view of a unified list: its structural entries and its text
  entries, each in order, without the \<open>kind\<close> field.\<close>

fun structural_entry :: "difference \<Rightarrow> sdiff option" where
  "structural_entry (Structural d) = Some d"
| "structural_entry (Text p cs) = None"

fun text_entry :: "difference \<Rightarrow> tdiff option" where
  "text_entry (Text (Some p) cs) = Some (TextDifference p cs)"
| "text_entry _ = None"

definition flat_view :: "result \<Rightarrow> sep_result" where
  "flat_view r = \<lparr>sep_changed = changed r,
                  structuralDifferences = List.map_filter structural_entry (differences r),
                  textDifferences = List.map_filter text_entry (differences r)\<rparr>"

text \<open>The \<open>name\<close> field of an attribute entry (the other entries have none).\<close>

fun attr_name :: "sdiff \<Rightarrow> string option" where
  "attr_name (AttributeRemoved p k v) = Some k"
| "attr_name (AttributeChanged p k v w) = Some k"
| "attr_name (AttributeAdded p k v) = Some k"
| "attr_name _ = None"

text \<open>Every ampersand of a string starts one of the five entities.\<close>

definition entities :: "string list" where
  \<open>entities = [''&amp;'', ''&lt;'', ''&gt;'', ''&quot;'', ''&#039;'']\<close>

fun amp_starts_entity :: "string \<Rightarrow> bool" where
  "amp_starts_entity [] = True"
| "amp_starts_entity (c # cs) =
     ((c = CHR ''&'' \<longrightarrow> list_ex (\<lambda>e. take (length e) (c # cs) = e) entities)
      \<and> amp_starts_entity cs)"

text \<open>What the five replacements of \<open>escapeHtml\<close> make of one character.\<close>

definition esc1 :: "char \<Rightarrow> string" where
  \<open>esc1 c = (if c = CHR ''&'' then ''&amp;'' else if c = CHR ''<'' then ''&lt;''
     else if c = CHR ''>'' then ''&gt;'' else if c = CHR 0x22 then ''&quot;''
     else if c = CHR 0x27 then ''&#039;'' else [c])\<close>

text \<open>
  A library instance for concrete runs. \<open>html_doc\<close> is the document parse5 builds around
  body content without a doctype: \<open>html\<close> with an empty \<open>head\<close> and the \<open>body\<close>.
  \<open>demo_parse\<close> gives the trees of the inputs used below and the empty document
  elsewhere. \<open>demo_diffChars\<close> is the coarsest edit script: the old string removed, the
  new string added, empty parts left out.
\<close>

definition html_doc :: "node list \<Rightarrow> node" where
  "html_doc body = Document [Element ''html'' [] [Element ''head'' [] [], Element ''body'' [] body]]"

definition demo_parse :: "string \<Rightarrow> node" where
  \<open>demo_parse s =
     (if s = ''<p>hello</p>'' then html_doc [Element ''p'' [] [TextNode ''hello'']]
      else if s = ''<p><br></p>'' then html_doc [Element ''p'' [] [Element ''br'' [] []]]
      else if s = ''<p>a</p>'' then html_doc [Element ''p'' [] [TextNode ''a'']]
      else if s = ''<p>a</p><p>b</p>''
        then html_doc [Element ''p'' [] [TextNode ''a''], Element ''p'' [] [TextNode ''b'']]
      else if s = ''<a href="x" id="i">t</a>''
        then html_doc [Element ''a'' [(''href'', ''x''), (''id'', ''i'')] [TextNode ''t'']]
      else if s = ''<b href="y" class="c">u</b>''
        then html_doc [Element ''b'' [(''href'', ''y''), (''class'', ''c'')] [TextNode ''u'']]
      else html_doc [])\<close>

definition demo_diffChars :: "string \<Rightarrow> string \<Rightarrow> part list" where
  "demo_diffChars a b =
     (if a = b then (if a = [] then [] else [\<lparr>pvalue = a, added = False, removed = False\<rparr>])
      else (if a = [] then [] else [\<lparr>pvalue = a, added = False, removed = True\<rparr>])
         @ (if b = [] then [] else [\<lparr>pvalue = b, added = True, removed = False\<rparr>]))"

definition demo_lib :: lib where
  "demo_lib = \<lparr>parse = demo_parse, diffChars = demo_diffChars,
               diffCharsAbsent = (\<lambda>x y. Inl TypeError)\<rparr>"

section \<open>Entry points: totality, identical inputs, the unchanged preview\<close>

lemma htmlRegex_absent: "\<not> htmlRegex_test ''null''" "\<not> htmlRegex_test ''undefined''"
  by simp_all

lemma diff_same: "diff L X X = Inr \<lparr>changed = False, differences = []\<rparr>"
  by (cases X) (simp_all add: diff_def compareHTML_def compareText_def normalizeHtml_def Let_def)

lemma diff_strings_total: "\<exists>r. diff L (Str a) (Str b) = Inr r"
  by (simp add: diff_def compareHTML_def compareText_def normalizeHtml_def callDiffChars_def Let_def)

lemma diff_absent_markup:
  assumes "htmlRegex_test b" and "x = Null \<or> x = Undefined"
  shows "diff L x (Str b) = Inl TypeError" and "diff L (Str b) x = Inl TypeError"
  using assms by (auto simp: diff_def compareHTML_def normalizeHtml_def)

text \<open>
  C3, as the code has it: \<open>diff\<close> returns a result for every pair of strings, whatever the
  collaborators compute, and that result is \<open>{changed: false, differences: []}\<close> when both
  inputs are the empty string, both \<open>null\<close> or both \<open>undefined\<close>. When one input is
  \<open>null\<close> or \<open>undefined\<close> and the other is a string that looks like markup, \<open>diff\<close>
  raises a \<open>TypeError\<close>.
\<close>

theorem C3_diff_total_on_strings:
  "(\<exists>r. diff L (Str a) (Str b) = Inr r)
   \<and> diff L (Str []) (Str []) = Inr \<lparr>changed = False, differences = []\<rparr>
   \<and> diff L Null Null = Inr \<lparr>changed = False, differences = []\<rparr>
   \<and> diff L Undefined Undefined = Inr \<lparr>changed = False, differences = []\<rparr>
   \<and> (htmlRegex_test b \<longrightarrow>
        diff L Null (Str b) = Inl TypeError \<and> diff L (Str b) Null = Inl TypeError
        \<and> diff L Undefined (Str b) = Inl TypeError \<and> diff L (Str b) Undefined = Inl TypeError)"
  by (simp add: diff_same diff_strings_total diff_absent_markup)

theorem C3_diff_total_on_strings_witness:
  "htmlRegex_test ''<p>a</p>''
   \<and> (\<exists>r. diff demo_lib (Str ''abc'') (Str ''<p>a</p>'') = Inr r)
   \<and> diff demo_lib (Str []) (Str []) = Inr \<lparr>changed = False, differences = []\<rparr>
   \<and> diff demo_lib Null Null = Inr \<lparr>changed = False, differences = []\<rparr>
   \<and> diff demo_lib Undefined Undefined = Inr \<lparr>changed = False, differences = []\<rparr>
   \<and> diff demo_lib Null (Str ''<p>a</p>'') = Inl TypeError
   \<and> diff demo_lib (Str ''<p>a</p>'') Undefined = Inl TypeError"
proof -
  have h: "htmlRegex_test ''<p>a</p>''" by (simp add: is_letter_def)
  show ?thesis
    using h C3_diff_total_on_strings [of demo_lib "''abc''" "''<p>a</p>''"] by blast
qed

text \<open>
  C3 as stated fails: with markup on one side and \<open>null\<close> on the other, \<open>diff\<close> takes the
  HTML branch and \<open>normalizeHtml\<close> calls \<open>replace\<close> on \<open>null\<close>, which raises.
\<close>

theorem C3_absent_raises: "diff demo_lib (Str ''<p>a</p>'') Null = Inl TypeError"
  by (simp add: diff_def compareHTML_def normalizeHtml_def is_letter_def)

text \<open>
  C4: \<open>diff(X, X)\<close> is \<open>{changed: false, differences: []}\<close> for every \<open>X\<close>; and so is
  \<open>diff(a, b)\<close> when one of the strings looks like markup and both normalise to the same
  string.
\<close>

theorem C4_diff_idempotent:
  "diff L X X = Inr \<lparr>changed = False, differences = []\<rparr>
   \<and> (normalizeHtml (Str a) = normalizeHtml (Str b) \<and> (htmlRegex_test a \<or> htmlRegex_test b)
        \<longrightarrow> diff L (Str a) (Str b) = Inr \<lparr>changed = False, differences = []\<rparr>)"
  by (auto simp add: diff_same diff_def compareHTML_def normalizeHtml_def Let_def)

theorem C4_diff_idempotent_witness:
  "diff demo_lib (Str ''<p>a</p>'') (Str ''<p>a</p>'') = Inr \<lparr>changed = False, differences = []\<rparr>
   \<and> normalizeHtml (Str ''<p>a</p>   <p>b</p>'') = normalizeHtml (Str '' <p>a</p><p>b</p>  '')
   \<and> htmlRegex_test ''<p>a</p>   <p>b</p>''
   \<and> diff demo_lib (Str ''<p>a</p>   <p>b</p>'') (Str '' <p>a</p><p>b</p>  '')
       = Inr \<lparr>changed = False, differences = []\<rparr>"
proof -
  have n: "normalizeHtml (Str ''<p>a</p>   <p>b</p>'') = normalizeHtml (Str '' <p>a</p><p>b</p>  '')"
    by (simp add: normalizeHtml_def trim_def is_ws_def)
  have h: "htmlRegex_test ''<p>a</p>   <p>b</p>''"
    by (simp add: is_letter_def)
  show ?thesis
    using n h
      C4_diff_idempotent [of demo_lib "Str ''<p>a</p>''" "''<p>a</p>   <p>b</p>''" "'' <p>a</p><p>b</p>  ''"]
    by blast
qed

text \<open>
  C8: when \<open>diff\<close> reports \<open>changed: false\<close>, \<open>renderDiffPreview\<close> returns the old
  content string between the opening and the closing tag of the preview container, and
  nothing else.
\<close>

theorem C8_unchanged_preview:
  assumes "diff L (Str oldContent) (Str newContent) = Inr r" and "\<not> changed r"
  shows \<open>renderDiffPreview L oldContent newContent
         = Inr (''<div class="diff-preview">'' @ oldContent @ ''</div>'')\<close>
  using assms by (simp add: renderDiffPreview_def)

theorem C8_unchanged_preview_witness:
  \<open>diff demo_lib (Str ''a < b'') (Str ''a < b'') = Inr \<lparr>changed = False, differences = []\<rparr>
   \<and> \<not> changed \<lparr>changed = False, differences = []\<rparr>
   \<and> renderDiffPreview demo_lib ''a < b'' ''a < b'' = Inr ''<div class="diff-preview">a < b</div>''\<close>
proof -
  have h: "diff demo_lib (Str ''a < b'') (Str ''a < b'') = Inr \<lparr>changed = False, differences = []\<rparr>"
    by (rule diff_same)
  have c: "\<not> changed \<lparr>changed = False, differences = []\<rparr>" by simp
  show ?thesis using h c C8_unchanged_preview [OF h c] by simp
qed

section \<open>The tag check guards the old side only\<close>

lemma tagCheck_iff:
  "Changed p a b \<in> set (tagCheck oldNode newNode path) \<longleftrightarrow>
     p = path \<and> a = nodeName oldNode \<and> b = nodeName newNode
     \<and> nodeName oldNode \<noteq> nodeName newNode \<and> nodeName oldNode \<noteq> HashText"
  by (auto simp: tagCheck_def)

text \<open>
  C1 at the inputs \<open><p>hello</p>\<close> and \<open><p><br></p>\<close>: with the text node on the old
  side nothing is reported, with the element on the old side a \<open>changed\<close> entry is, so the
  two directions disagree on \<open>changed\<close>.
\<close>

theorem C1_detection_asymmetric:
  "diff demo_lib (Str ''<p>hello</p>'') (Str ''<p><br></p>'')
     = Inr \<lparr>changed = False, differences = []\<rparr>
   \<and> diff demo_lib (Str ''<p><br></p>'') (Str ''<p>hello</p>'')
     = Inr \<lparr>changed = True,
            differences = [Structural (Changed ''0/1/0/0'' (Tag ''br'') HashText)]\<rparr>"
  by code_simp

text \<open>
  C2 at the pair of a \<open>br\<close> element and a text node: a \<open>changed\<close> entry is pushed although
  the new node is a text node, and none is pushed in the other direction.
\<close>

theorem C2_changed_with_text_node:
  "compareNodes demo_diffChars (Some (Element ''br'' [] [])) (Some (TextNode ''hello'')) ''0/1/0/0''
     = [Structural (Changed ''0/1/0/0'' (Tag ''br'') HashText)]
   \<and> compareNodes demo_diffChars (Some (TextNode ''hello'')) (Some (Element ''br'' [] [])) ''0/1/0/0''
     = []"
  by code_simp

section \<open>\<open>changed\<close> and the emptiness of \<open>differences\<close>\<close>

lemma edit_script_differ:
  assumes "edit_script a b ps" and "a \<noteq> b"
  shows "list_ex (\<lambda>p. added p \<or> removed p) ps"
proof (rule ccontr)
  assume "\<not> list_ex (\<lambda>p. added p \<or> removed p) ps"
  then have none: "\<forall>p \<in> set ps. \<not> added p \<and> \<not> removed p"
    by (auto simp: list_ex_iff)
  then have "filter (\<lambda>p. \<not> added p) ps = ps" "filter (\<lambda>p. \<not> removed p) ps = ps"
    by (simp_all add: filter_id_conv)
  with assms(1) have "a = b" unfolding edit_script_def by auto
  with assms(2) show False by simp
qed

lemma compareHTML_changed_iff:
  "compareHTML L x y = Inr r \<Longrightarrow> (changed r = False) = (differences r = [])"
  by (auto simp: compareHTML_def Let_def split: sum.splits if_splits)

lemma compareText_changed_iff:
  assumes "diffChars_contract L" and "compareText L (Str a) (Str b) = Inr r"
  shows "(changed r = False) = (differences r = [])"
proof (cases "a = b")
  case True
  with assms(2) show ?thesis by (auto simp: compareText_def)
next
  case False
  from assms(1) have "edit_script a b (diffChars L a b)"
    by (simp add: diffChars_contract_def)
  then have "list_ex (\<lambda>p. added p \<or> removed p) (diffChars L a b)"
    using False by (rule edit_script_differ)
  with False assms(2) show ?thesis
    by (auto simp: compareText_def callDiffChars_def)
qed

lemma demo_contract: "diffChars_contract demo_lib"
  by (auto simp: diffChars_contract_def edit_script_def demo_lib_def demo_diffChars_def)

text \<open>
  C6: in a result that \<open>diff\<close> returns for two strings, \<open>changed\<close> is false exactly when
  \<open>differences\<close> is empty. In HTML mode the flag is computed from the length of the list.
  In flat-text mode the list always has one entry when the strings differ, and the flag is
  true because an edit script between two different strings has an added or a removed part:
  this is where the contract of the character-diff primitive is used.
\<close>

theorem C6_changed_iff_nonempty:
  assumes "diffChars_contract L" and "diff L (Str a) (Str b) = Inr r"
  shows "(changed r = False) = (differences r = [])"
  using assms compareHTML_changed_iff [of L "Str a" "Str b" r] compareText_changed_iff [of L a b r]
  by (auto simp: diff_def Let_def split: if_splits)

theorem C6_changed_iff_nonempty_witness:
  "diffChars_contract demo_lib
   \<and> diff demo_lib (Str ''abc'') (Str ''abd'')
       = Inr \<lparr>changed = True,
              differences = [Text None [Change CRemoved ''abc'', Change CAdded ''abd'']]\<rparr>
   \<and> (changed \<lparr>changed = True,
                differences = [Text None [Change CRemoved ''abc'', Change CAdded ''abd'']]\<rparr> = False)
       = (differences \<lparr>changed = True,
                differences = [Text None [Change CRemoved ''abc'', Change CAdded ''abd'']]\<rparr> = [])"
proof -
  have c: "diffChars_contract demo_lib" by (rule demo_contract)
  have d: "diff demo_lib (Str ''abc'') (Str ''abd'')
       = Inr \<lparr>changed = True,
              differences = [Text None [Change CRemoved ''abc'', Change CAdded ''abd'']]\<rparr>"
    by code_simp
  show ?thesis using c d C6_changed_iff_nonempty [OF c d] by simp
qed

section \<open>Maps built by \<open>new Map\<close>, and a node compared with itself\<close>

lemma Map_set_keys:
  "map fst (Map_set m k v) = (if k \<in> set (map fst m) then map fst m else map fst m @ [k])"
  by (induction m) force+

lemma Map_set_distinct: "distinct (map fst m) \<Longrightarrow> distinct (map fst (Map_set m k v))"
  by (simp add: Map_set_keys)

lemma foldl_Map_set_distinct:
  "distinct (map fst m) \<Longrightarrow> distinct (map fst (foldl (\<lambda>m (k, v). Map_set m k v) m es))"
  by (induction es arbitrary: m) (auto simp: Map_set_distinct split: prod.splits)

lemma new_Map_distinct: "distinct (map fst (new_Map es))"
  by (simp add: new_Map_def foldl_Map_set_distinct)

lemma Map_get_member:
  "distinct (map fst m) \<Longrightarrow> (k, v) \<in> set m \<Longrightarrow> Map_get m k = Some v"
  by (simp add: Map_get_def)

lemma Map_has_get: "Map_has m k \<longleftrightarrow> Map_get m k \<noteq> None"
  by (simp add: Map_has_def Map_get_def map_of_eq_None_iff)

lemma attrLoops_same: "distinct (map fst m) \<Longrightarrow> attrLoops path m m = []"
  by (auto simp: attrLoops_def Map_has_get Map_get_member split: option.splits)

lemma attrCheck_same: "attrCheck n n path = []"
  by (cases n) (simp_all add: attrCheck_def attrLoops_same new_Map_distinct)

lemma tagCheck_same: "tagCheck n n path = []"
  by (simp add: tagCheck_def)

lemma textCheck_same: "textCheck dc n n path = []"
  by (cases n) (simp_all add: textCheck_def)

lemma compareNodes_same: "compareNodes dc (Some n) (Some n) path = []"
proof (induction n arbitrary: path rule: measure_induct_rule [where f = size])
  case (less n)
  have "compareNodes dc (at_index (childNodesOrEmpty n) i) (at_index (childNodesOrEmpty n) i)
          (childPath path i) = []" if "i < length (childNodesOrEmpty n)" for i
  proof -
    from that have "childNodesOrEmpty n ! i \<in> set (childNodesOrEmpty n)" by simp
    then have "size (childNodesOrEmpty n ! i) < size n" by (rule size_child)
    then show ?thesis using that by (simp add: at_index_def less.IH del: compareNodes.simps)
  qed
  then show ?case
    by (subst compareNodes.simps)
       (simp add: tagCheck_same textCheck_same attrCheck_same Let_def del: compareNodes.simps)
qed

section \<open>An absent side\<close>

lemma children_prefix_same:
  "concat (map (\<lambda>i. compareNodes dc (at_index cs i) (at_index (cs @ [n]) i) (childPath p i))
       [0..<length cs]) = []"
  by (simp add: at_index_def nth_append compareNodes_same del: compareNodes.simps)

lemma children_prefix_same':
  "concat (map (\<lambda>i. compareNodes dc (at_index (cs @ [n]) i) (at_index cs i) (childPath p i))
       [0..<length cs]) = []"
  by (simp add: at_index_def nth_append compareNodes_same del: compareNodes.simps)

lemma at_index_end: "at_index cs (length cs) = None" "at_index (cs @ [n]) (length cs) = Some n"
  by (simp_all add: at_index_def)

lemma element_same_checks:
  "tagCheck (Element t as cs) (Element t as cs') p = []"
  "textCheck dc (Element t as cs) (Element t as cs') p = []"
  "attrCheck (Element t as cs) (Element t as cs') p = []"
  by (simp_all add: tagCheck_def textCheck_def attrCheck_def attrLoops_same new_Map_distinct)

text \<open>
  C5: when the old node is absent, \<open>compareNodes\<close> pushes exactly one \<open>added\<close> entry at
  the path, carrying the whole new node, and returns; when the new node is absent, exactly
  one \<open>removed\<close> entry carrying the whole old node. So an element that gains a last child
  \<open>n\<close>, everything else equal, yields the single entry \<open>added\<close> with \<open>n\<close> at the path of
  that child, whatever \<open>n\<close> has below it; and the same with \<open>removed\<close> when it loses it.
\<close>

theorem C5_absent_side_one_entry:
  "compareNodes dc None (Some n) p = [Structural (Added p (Some n))]
   \<and> compareNodes dc (Some n) None p = [Structural (Removed p (Some n))]
   \<and> compareNodes dc (Some (Element t as cs)) (Some (Element t as (cs @ [n]))) p
       = [Structural (Added (childPath p (length cs)) (Some n))]
   \<and> compareNodes dc (Some (Element t as (cs @ [n]))) (Some (Element t as cs)) p
       = [Structural (Removed (childPath p (length cs)) (Some n))]"
proof -
  have a: "compareNodes dc (Some (Element t as cs)) (Some (Element t as (cs @ [n]))) p
       = [Structural (Added (childPath p (length cs)) (Some n))]"
    by (subst compareNodes.simps)
       (simp add: element_same_checks children_prefix_same at_index_end
             del: compareNodes.simps(3))
  have r: "compareNodes dc (Some (Element t as (cs @ [n]))) (Some (Element t as cs)) p
       = [Structural (Removed (childPath p (length cs)) (Some n))]"
    by (subst compareNodes.simps)
       (simp add: element_same_checks children_prefix_same' at_index_end
             del: compareNodes.simps(3))
  show ?thesis using a r by simp
qed

theorem C5_absent_side_one_entry_witness:
  "compareNodes demo_diffChars None
        (Some (Element ''ul'' [] [Element ''li'' [] [TextNode ''x''], Element ''li'' [] []])) ''0/1/1''
     = [Structural (Added ''0/1/1''
          (Some (Element ''ul'' [] [Element ''li'' [] [TextNode ''x''], Element ''li'' [] []])))]
   \<and> compareNodes demo_diffChars
        (Some (Element ''ul'' [] [Element ''li'' [] [TextNode ''x''], Element ''li'' [] []])) None ''0/1/1''
     = [Structural (Removed ''0/1/1''
          (Some (Element ''ul'' [] [Element ''li'' [] [TextNode ''x''], Element ''li'' [] []])))]
   \<and> compareNodes demo_diffChars (Some (Element ''body'' [] [Element ''p'' [] [TextNode ''a'']]))
        (Some (Element ''body'' [] [Element ''p'' [] [TextNode ''a''],
                 Element ''ul'' [] [Element ''li'' [] [TextNode ''x''], Element ''li'' [] []]])) ''0/1''
     = [Structural (Added ''0/1/1''
          (Some (Element ''ul'' [] [Element ''li'' [] [TextNode ''x''], Element ''li'' [] []])))]
   \<and> compareNodes demo_diffChars
        (Some (Element ''body'' [] [Element ''p'' [] [TextNode ''a''],
                 Element ''ul'' [] [Element ''li'' [] [TextNode ''x''], Element ''li'' [] []]]))
        (Some (Element ''body'' [] [Element ''p'' [] [TextNode ''a'']])) ''0/1''
     = [Structural (Removed ''0/1/1''
          (Some (Element ''ul'' [] [Element ''li'' [] [TextNode ''x''], Element ''li'' [] []])))]"
  using C5_absent_side_one_entry [of demo_diffChars
     "Element ''ul'' [] [Element ''li'' [] [TextNode ''x''], Element ''li'' [] []]" "''0/1/1''"]
   C5_absent_side_one_entry [of demo_diffChars
     "Element ''ul'' [] [Element ''li'' [] [TextNode ''x''], Element ''li'' [] []]" "''0/1''"
     "''body''" "[]" "[Element ''p'' [] [TextNode ''a'']]"]
  by (simp add: childPath_def String_of_nat.simps digit_def del: compareNodes.simps)

section \<open>Attribute comparison\<close>

lemma Map_get_SomeD: "Map_get m k = Some v \<Longrightarrow> (k, v) \<in> set m"
  by (simp add: Map_get_def map_of_SomeD)

lemma attrLoops_removed:
  assumes "distinct (map fst oldM)"
  shows "AttributeRemoved p' k v \<in> set (attrLoops p oldM newM) \<longleftrightarrow>
         p' = p \<and> Map_get oldM k = Some v \<and> Map_get newM k = None"
proof
  assume "AttributeRemoved p' k v \<in> set (attrLoops p oldM newM)"
  then show "p' = p \<and> Map_get oldM k = Some v \<and> Map_get newM k = None"
    using assms
    by (auto simp: attrLoops_def Map_has_get Map_get_member split: option.splits if_splits)
next
  assume r: "p' = p \<and> Map_get oldM k = Some v \<and> Map_get newM k = None"
  then have "(k, v) \<in> set oldM" by (auto dest: Map_get_SomeD)
  then show "AttributeRemoved p' k v \<in> set (attrLoops p oldM newM)"
    using r by (force simp: attrLoops_def Map_has_get)
qed

lemma attrLoops_changed:
  assumes "distinct (map fst oldM)"
  shows "AttributeChanged p' k v w \<in> set (attrLoops p oldM newM) \<longleftrightarrow>
         p' = p \<and> Map_get oldM k = Some v \<and> Map_get newM k = Some w \<and> v \<noteq> w"
proof
  assume "AttributeChanged p' k v w \<in> set (attrLoops p oldM newM)"
  then show "p' = p \<and> Map_get oldM k = Some v \<and> Map_get newM k = Some w \<and> v \<noteq> w"
    using assms
    by (auto simp: attrLoops_def Map_has_get Map_get_member split: option.splits if_splits)
next
  assume r: "p' = p \<and> Map_get oldM k = Some v \<and> Map_get newM k = Some w \<and> v \<noteq> w"
  then have "(k, v) \<in> set oldM" by (auto dest: Map_get_SomeD)
  then show "AttributeChanged p' k v w \<in> set (attrLoops p oldM newM)"
    using r by (force simp: attrLoops_def Map_has_get)
qed

lemma attrLoops_added:
  assumes "distinct (map fst newM)"
  shows "AttributeAdded p' k v \<in> set (attrLoops p oldM newM) \<longleftrightarrow>
         p' = p \<and> Map_get newM k = Some v \<and> Map_get oldM k = None"
proof
  assume "AttributeAdded p' k v \<in> set (attrLoops p oldM newM)"
  then show "p' = p \<and> Map_get newM k = Some v \<and> Map_get oldM k = None"
    using assms
    by (auto simp: attrLoops_def Map_has_get Map_get_member split: option.splits if_splits)
next
  assume r: "p' = p \<and> Map_get newM k = Some v \<and> Map_get oldM k = None"
  then have "(k, v) \<in> set newM" by (auto dest: Map_get_SomeD)
  then show "AttributeAdded p' k v \<in> set (attrLoops p oldM newM)"
    using r by (force simp: attrLoops_def Map_has_get)
qed

lemma old_loop_names:
  assumes "\<forall>(k, v) \<in> set m. Map_get oldM k = Some v"
  shows "map attr_name (concat (map (\<lambda>(name, oldValue).
        if \<not> Map_has newM name then [AttributeRemoved path name oldValue]
        else (case Map_get newM name of
                Some newValue \<Rightarrow>
                  if newValue \<noteq> oldValue then [AttributeChanged path name oldValue newValue] else []
              | None \<Rightarrow> [])) m))
       = map Some (filter (\<lambda>k. Map_get newM k \<noteq> Map_get oldM k) (map fst m))"
  using assms
  by (induction m) (auto simp: Map_has_get split: option.splits)

lemma new_loop_names:
  "map attr_name (concat (map (\<lambda>(name, value).
        if \<not> Map_has oldM name then [AttributeAdded path name value] else []) m))
       = map Some (filter (\<lambda>k. Map_get oldM k = None) (map fst m))"
  by (induction m) (auto simp: Map_has_get)

lemma attrLoops_names:
  assumes "distinct (map fst oldM)"
  shows "map attr_name (attrLoops p oldM newM)
       = map Some (filter (\<lambda>k. Map_get newM k \<noteq> Map_get oldM k) (map fst oldM)
                   @ filter (\<lambda>k. Map_get oldM k = None) (map fst newM))"
proof -
  have "\<forall>(k, v) \<in> set oldM. Map_get oldM k = Some v"
    using assms by (auto simp: Map_get_member)
  then show ?thesis
    unfolding attrLoops_def by (simp add: old_loop_names new_loop_names)
qed

lemma attrLoops_names_distinct:
  assumes "distinct (map fst oldM)" "distinct (map fst newM)"
  shows "distinct (map attr_name (attrLoops p oldM newM))"
proof -
  have "Map_get oldM k \<noteq> None" if "(k, v) \<in> set oldM" for k v
  proof -
    from that have "k \<in> fst ` set oldM" by force
    then show ?thesis by (simp add: Map_get_def map_of_eq_None_iff)
  qed
  then have "distinct (filter (\<lambda>k. Map_get newM k \<noteq> Map_get oldM k) (map fst oldM)
                   @ filter (\<lambda>k. Map_get oldM k = None) (map fst newM))"
    using assms by fastforce
  then show ?thesis
    using assms(1) by (simp add: attrLoops_names distinct_map del: map_append)
qed


lemma compareNodes_elements:
  "compareNodes dc (Some (Element t oa cs)) (Some (Element t' na cs')) p
     = map Structural (tagCheck (Element t oa cs) (Element t' na cs') p)
       @ map Structural (attrCheck (Element t oa cs) (Element t' na cs') p)
       @ concat (map (\<lambda>i. compareNodes dc (at_index cs i) (at_index cs' i) (childPath p i))
                     [0..<max (length cs) (length cs')])"
  by (subst compareNodes.simps) (simp add: textCheck_def Let_def del: compareNodes.simps)

text \<open>
  C7: for a pair of elements, with \<open>oldAttrs\<close> and \<open>newAttrs\<close> the two maps and \<open>out\<close>
  what the attribute comparison pushes: an \<open>attributeRemoved\<close> entry is in \<open>out\<close> exactly
  for a key of the old map alone, with its old value; an \<open>attributeAdded\<close> entry exactly
  for a key of the new map alone, with its value; an \<open>attributeChanged\<close> entry exactly for
  a key of both maps with different values, with both values; all at the pair's path. The
  names of the entries of \<open>out\<close>, in order, are the keys of the old map whose value
  differs in the new map (or is missing there), in the old map's order, followed by the keys
  of the new map that the old map lacks, in the new map's order; no name occurs twice. In
  the list \<open>compareNodes\<close> returns, \<open>out\<close> stands after the tag check and before the
  children.
\<close>

theorem C7_attribute_entries:
  assumes "oldAttrs = new_Map oa" and "newAttrs = new_Map na"
    and "out = attrCheck (Element t oa cs) (Element t' na cs') p"
  shows "(AttributeRemoved q k v \<in> set out \<longleftrightarrow>
            q = p \<and> Map_get oldAttrs k = Some v \<and> Map_get newAttrs k = None)
       \<and> (AttributeAdded q k v \<in> set out \<longleftrightarrow>
            q = p \<and> Map_get newAttrs k = Some v \<and> Map_get oldAttrs k = None)
       \<and> (AttributeChanged q k v w \<in> set out \<longleftrightarrow>
            q = p \<and> Map_get oldAttrs k = Some v \<and> Map_get newAttrs k = Some w \<and> v \<noteq> w)
       \<and> map attr_name out
           = map Some (filter (\<lambda>k. Map_get newAttrs k \<noteq> Map_get oldAttrs k) (map fst oldAttrs)
                       @ filter (\<lambda>k. Map_get oldAttrs k = None) (map fst newAttrs))
       \<and> distinct (map attr_name out)
       \<and> compareNodes dc (Some (Element t oa cs)) (Some (Element t' na cs')) p
           = map Structural (tagCheck (Element t oa cs) (Element t' na cs') p)
             @ map Structural out
             @ concat (map (\<lambda>i. compareNodes dc (at_index cs i) (at_index cs' i) (childPath p i))
                           [0..<max (length cs) (length cs')])"
proof -
  have d: "distinct (map fst oldAttrs)" "distinct (map fst newAttrs)"
    using assms by (simp_all add: new_Map_distinct)
  have out: "out = attrLoops p oldAttrs newAttrs"
    using assms by (simp add: attrCheck_def)
  show ?thesis
    unfolding out
    using d attrLoops_removed [of oldAttrs q k v p newAttrs]
      attrLoops_added [of newAttrs q k v p oldAttrs]
      attrLoops_changed [of oldAttrs q k v w p newAttrs]
      attrLoops_names [of oldAttrs p newAttrs]
      attrLoops_names_distinct [of oldAttrs newAttrs p]
      compareNodes_elements [of dc t oa cs t' na cs' p]
    by (simp add: out [symmetric] assms(3) [symmetric] del: compareNodes.simps map_append)
qed

theorem C7_attribute_entries_witness:
  "[(''href'', ''x''), (''id'', ''i''), (''rel'', ''r'')] = new_Map [(''href'', ''x''), (''id'', ''i''), (''rel'', ''r'')]
   \<and> [(''rel'', ''r''), (''href'', ''y''), (''class'', ''c'')] = new_Map [(''rel'', ''r''), (''href'', ''y''), (''class'', ''c'')]
   \<and> [AttributeChanged ''0'' ''href'' ''x'' ''y'', AttributeRemoved ''0'' ''id'' ''i'',
       AttributeAdded ''0'' ''class'' ''c'']
       = attrCheck (Element ''a'' [(''href'', ''x''), (''id'', ''i''), (''rel'', ''r'')] [])
                   (Element ''a'' [(''rel'', ''r''), (''href'', ''y''), (''class'', ''c'')] []) ''0''
   \<and> map attr_name [AttributeChanged ''0'' ''href'' ''x'' ''y'', AttributeRemoved ''0'' ''id'' ''i'',
       AttributeAdded ''0'' ''class'' ''c''] = [Some ''href'', Some ''id'', Some ''class'']
   \<and> compareNodes demo_diffChars
         (Some (Element ''a'' [(''href'', ''x''), (''id'', ''i''), (''rel'', ''r'')] []))
         (Some (Element ''a'' [(''rel'', ''r''), (''href'', ''y''), (''class'', ''c'')] [])) ''0''
       = [Structural (AttributeChanged ''0'' ''href'' ''x'' ''y''),
          Structural (AttributeRemoved ''0'' ''id'' ''i''),
          Structural (AttributeAdded ''0'' ''class'' ''c'')]"
proof -
  have h1: "[(''href'', ''x''), (''id'', ''i''), (''rel'', ''r'')]
            = new_Map [(''href'', ''x''), (''id'', ''i''), (''rel'', ''r'')]"
    by (simp add: new_Map_def)
  have h2: "[(''rel'', ''r''), (''href'', ''y''), (''class'', ''c'')]
            = new_Map [(''rel'', ''r''), (''href'', ''y''), (''class'', ''c'')]"
    by (simp add: new_Map_def)
  have h3: "[AttributeChanged ''0'' ''href'' ''x'' ''y'', AttributeRemoved ''0'' ''id'' ''i'',
       AttributeAdded ''0'' ''class'' ''c'']
       = attrCheck (Element ''a'' [(''href'', ''x''), (''id'', ''i''), (''rel'', ''r'')] [])
                   (Element ''a'' [(''rel'', ''r''), (''href'', ''y''), (''class'', ''c'')] []) ''0''"
    by (simp add: attrCheck_def attrLoops_def new_Map_def Map_has_def Map_get_def)
  have r: "map attr_name [AttributeChanged ''0'' ''href'' ''x'' ''y'', AttributeRemoved ''0'' ''id'' ''i'',
       AttributeAdded ''0'' ''class'' ''c''] = [Some ''href'', Some ''id'', Some ''class'']
   \<and> compareNodes demo_diffChars
         (Some (Element ''a'' [(''href'', ''x''), (''id'', ''i''), (''rel'', ''r'')] []))
         (Some (Element ''a'' [(''rel'', ''r''), (''href'', ''y''), (''class'', ''c'')] [])) ''0''
       = [Structural (AttributeChanged ''0'' ''href'' ''x'' ''y''),
          Structural (AttributeRemoved ''0'' ''id'' ''i''),
          Structural (AttributeAdded ''0'' ''class'' ''c'')]"
    using C7_attribute_entries [OF h1 h2 h3, of "''0''" "''id''" "''i''" "''z''" demo_diffChars]
    by (simp add: tagCheck_def Map_get_def del: compareNodes.simps)
  show ?thesis
    by (rule conjI [OF h1 conjI [OF h2 conjI [OF h3 r]]])
qed

section \<open>The two-list form is a view of the unified form\<close>

lemma map_filter_append: "List.map_filter f (xs @ ys) = List.map_filter f xs @ List.map_filter f ys"
  by (simp add: List.map_filter_def)

lemma map_filter_concat:
  "List.map_filter f (concat xss) = concat (map (List.map_filter f) xss)"
  by (induction xss) (simp_all add: map_filter_append List.map_filter_simps)

lemma structural_of_Structural: "List.map_filter structural_entry (map Structural ds) = ds"
  by (induction ds) (simp_all add: List.map_filter_simps)

lemma text_of_Structural: "List.map_filter text_entry (map Structural ds) = []"
  by (induction ds) (simp_all add: List.map_filter_simps)

lemma structural_of_Text:
  "List.map_filter structural_entry (map (\<lambda>(p, cs). Text (Some p) cs) ts) = []"
  by (induction ts) (auto simp: List.map_filter_simps)

lemma text_of_Text:
  "List.map_filter text_entry (map (\<lambda>(p, cs). Text (Some p) cs) ts)
     = map (\<lambda>(p, cs). TextDifference p cs) ts"
  by (induction ts) (auto simp: List.map_filter_simps)

lemma sep_compareNodes_view:
  "sep_compareNodes dc oldNode newNode path
     = (List.map_filter structural_entry (compareNodes dc oldNode newNode path),
        List.map_filter text_entry (compareNodes dc oldNode newNode path))"
proof (induction dc oldNode newNode path rule: compareNodes.induct)
  case (1 dc newNode path)
  show ?case by (simp add: List.map_filter_simps)
next
  case (2 dc oldNode path)
  show ?case by (simp add: List.map_filter_simps)
next
  case (3 dc oldNode newNode path)
  have kids: "map (\<lambda>i. sep_compareNodes dc (at_index (childNodesOrEmpty oldNode) i)
                      (at_index (childNodesOrEmpty newNode) i) (childPath path i))
                [0..<max (length (childNodesOrEmpty oldNode)) (length (childNodesOrEmpty newNode))]
     = map (\<lambda>i. (List.map_filter structural_entry
                    (compareNodes dc (at_index (childNodesOrEmpty oldNode) i)
                      (at_index (childNodesOrEmpty newNode) i) (childPath path i)),
                  List.map_filter text_entry
                    (compareNodes dc (at_index (childNodesOrEmpty oldNode) i)
                      (at_index (childNodesOrEmpty newNode) i) (childPath path i))))
                [0..<max (length (childNodesOrEmpty oldNode)) (length (childNodesOrEmpty newNode))]"
    by (rule map_cong [OF refl]) (rule "3.IH" [OF refl refl refl])
  show ?case
    unfolding sep_compareNodes.simps(3) compareNodes.simps(3) Let_def kids
    by (simp add:  map_filter_append map_filter_concat structural_of_Structural
          text_of_Structural structural_of_Text text_of_Text comp_def
          del: compareNodes.simps sep_compareNodes.simps)
qed


lemma compareNodes_has_path:
  "d \<in> set (compareNodes dc oldNode newNode path) \<Longrightarrow> diff_path d \<noteq> None"
proof (induction dc oldNode newNode path arbitrary: d rule: compareNodes.induct)
  case (1 dc newNode path)
  then show ?case by auto
next
  case (2 dc oldNode path)
  then show ?case by auto
next
  case (3 dc oldNode newNode path)
  from "3.prems" show ?case
    unfolding compareNodes.simps(3) Let_def
    using "3.IH" [OF refl refl refl]
    by (auto simp del: compareNodes.simps)
qed

lemma view_length:
  "(\<And>d. d \<in> set ds \<Longrightarrow> diff_path d \<noteq> None) \<Longrightarrow>
   length (List.map_filter structural_entry ds) + length (List.map_filter text_entry ds)
     = length ds"
proof (induction ds)
  case Nil
  show ?case by (simp add: List.map_filter_simps)
next
  case (Cons d ds)
  then have "diff_path d \<noteq> None" by simp
  then have "length (List.map_filter structural_entry [d]) + length (List.map_filter text_entry [d]) = 1"
    by (cases d) (auto simp: List.map_filter_simps)
  moreover have "length (List.map_filter structural_entry ds) + length (List.map_filter text_entry ds)
     = length ds"
    using Cons by simp
  ultimately show ?case
    using map_filter_append [of structural_entry "[d]" ds] map_filter_append [of text_entry "[d]" ds]
    by simp
qed

lemma compareNodes_view_length:
  "length (List.map_filter structural_entry (compareNodes dc oldNode newNode path))
   + length (List.map_filter text_entry (compareNodes dc oldNode newNode path))
   = length (compareNodes dc oldNode newNode path)"
  by (rule view_length) (rule compareNodes_has_path)

lemma compareNodes_views_empty:
  "(List.map_filter structural_entry (compareNodes dc oldNode newNode path) = []
    \<and> List.map_filter text_entry (compareNodes dc oldNode newNode path) = [])
   \<longleftrightarrow> compareNodes dc oldNode newNode path = []"
proof
  assume "List.map_filter structural_entry (compareNodes dc oldNode newNode path) = []
    \<and> List.map_filter text_entry (compareNodes dc oldNode newNode path) = []"
  then have "length (compareNodes dc oldNode newNode path) = 0"
    using compareNodes_view_length [of dc oldNode newNode path] by simp
  then show "compareNodes dc oldNode newNode path = []" by simp
next
  assume "compareNodes dc oldNode newNode path = []"
  then show "List.map_filter structural_entry (compareNodes dc oldNode newNode path) = []
    \<and> List.map_filter text_entry (compareNodes dc oldNode newNode path) = []"
    by (simp add: List.map_filter_simps)
qed

lemma compareHTML_view_length:
  assumes "compareHTML L x y = Inr r"
  shows "length (List.map_filter structural_entry (differences r))
         + length (List.map_filter text_entry (differences r)) = length (differences r)"
  using assms compareNodes_view_length [of "diffChars L"]
  by (auto simp: compareHTML_def Let_def List.map_filter_simps split: sum.splits if_splits
           simp del: compareNodes.simps)

text \<open>
  C9: on every pair of inputs, \<open>compareHTML\<close> of \<open>seperated.js\<close> returns the flat view
  of what \<open>compareHTML\<close> of \<open>combined.js\<close> returns (and raises when it raises): the
  same \<open>changed\<close> flag, as \<open>structuralDifferences\<close> the structural entries of
  \<open>differences\<close> in order, as \<open>textDifferences\<close> its text entries in order. The two
  lists together have as many entries as \<open>differences\<close>, so every entry is in one of them.
\<close>

theorem C9_separated_is_flat_view:
  "sep_compareHTML L x y = map_sum id flat_view (compareHTML L x y)
   \<and> (\<forall>r. compareHTML L x y = Inr r \<longrightarrow>
        length (List.map_filter structural_entry (differences r))
        + length (List.map_filter text_entry (differences r)) = length (differences r))"
proof -
  have "sep_compareHTML L x y = map_sum id flat_view (compareHTML L x y)"
    using compareNodes_views_empty [of "diffChars L"]
    by (auto simp: sep_compareHTML_def compareHTML_def flat_view_def Let_def sep_compareNodes_view
          List.map_filter_simps split: sum.splits simp del: compareNodes.simps)
  then show ?thesis by (simp add: compareHTML_view_length)
qed


theorem C9_separated_is_flat_view_witness:
  \<open>compareHTML demo_lib (Str ''<a href="x" id="i">t</a>'') (Str ''<b href="y" class="c">u</b>'')
     = Inr \<lparr>changed = True,
            differences =
              [Structural (Changed ''0/1/0'' (Tag ''a'') (Tag ''b'')),
               Structural (AttributeChanged ''0/1/0'' ''href'' ''x'' ''y''),
               Structural (AttributeRemoved ''0/1/0'' ''id'' ''i''),
               Structural (AttributeAdded ''0/1/0'' ''class'' ''c''),
               Text (Some ''0/1/0/0'') [Change CRemoved ''t'', Change CAdded ''u'']]\<rparr>
   \<and> sep_compareHTML demo_lib (Str ''<a href="x" id="i">t</a>'') (Str ''<b href="y" class="c">u</b>'')
     = Inr \<lparr>sep_changed = True,
            structuralDifferences =
              [Changed ''0/1/0'' (Tag ''a'') (Tag ''b''),
               AttributeChanged ''0/1/0'' ''href'' ''x'' ''y'',
               AttributeRemoved ''0/1/0'' ''id'' ''i'',
               AttributeAdded ''0/1/0'' ''class'' ''c''],
            textDifferences =
              [TextDifference ''0/1/0/0'' [Change CRemoved ''t'', Change CAdded ''u'']]\<rparr>\<close>
proof -
  have c: \<open>compareHTML demo_lib (Str ''<a href="x" id="i">t</a>'') (Str ''<b href="y" class="c">u</b>'')
     = Inr \<lparr>changed = True,
            differences =
              [Structural (Changed ''0/1/0'' (Tag ''a'') (Tag ''b'')),
               Structural (AttributeChanged ''0/1/0'' ''href'' ''x'' ''y''),
               Structural (AttributeRemoved ''0/1/0'' ''id'' ''i''),
               Structural (AttributeAdded ''0/1/0'' ''class'' ''c''),
               Text (Some ''0/1/0/0'') [Change CRemoved ''t'', Change CAdded ''u'']]\<rparr>\<close>
    by code_simp
  show ?thesis
    using c C9_separated_is_flat_view [of demo_lib \<open>Str ''<a href="x" id="i">t</a>''\<close>
                \<open>Str ''<b href="y" class="c">u</b>''\<close>]
    by (simp add: flat_view_def List.map_filter_simps)
qed

section \<open>Escaping in the preview\<close>

lemma replaceAll_Nil: "replaceAll c r [] = []"
  by (simp add: replaceAll_def)

lemma replaceAll_Cons: "replaceAll c r (x # xs) = (if x = c then r else [x]) @ replaceAll c r xs"
  by (simp add: replaceAll_def)

lemma replaceAll_append: "replaceAll c r (xs @ ys) = replaceAll c r xs @ replaceAll c r ys"
  by (simp add: replaceAll_def)

lemma escapeHtml_Nil: "escapeHtml [] = []"
  by (simp add: escapeHtml_def replaceAll_Nil)

lemma escapeHtml_Cons: "escapeHtml (c # cs) = esc1 c @ escapeHtml cs"
  by (simp add: escapeHtml_def esc1_def replaceAll_Cons replaceAll_append replaceAll_Nil)

lemma esc1_no_markup: "x \<in> set (esc1 c) \<Longrightarrow> x \<notin> {CHR ''<'', CHR ''>'', CHR 0x22, CHR 0x27}"
  by (auto simp: esc1_def split: if_splits)

lemma escapeHtml_no_markup:
  "x \<in> set (escapeHtml s) \<Longrightarrow> x \<notin> {CHR ''<'', CHR ''>'', CHR 0x22, CHR 0x27}"
  by (induction s) (auto simp: escapeHtml_Nil escapeHtml_Cons dest: esc1_no_markup)

lemma amp_esc1: "amp_starts_entity rest \<Longrightarrow> amp_starts_entity (esc1 c @ rest)"
  by (auto simp: esc1_def entities_def)

lemma escapeHtml_amp: "amp_starts_entity (escapeHtml s)"
  by (induction s) (simp_all add: escapeHtml_Nil escapeHtml_Cons amp_esc1)


lemma renderNode_text:
  "renderNode dm (TextNode v) path
     = Inr (case Map_get dm (Some path) of
              Some (Text p changes) \<Rightarrow> concat (map renderChange changes)
            | _ \<Rightarrow> escapeHtml v)"
  by (subst renderNode.simps) (simp split: option.splits difference.splits)

lemma renderNode_element:
  assumes "renderNode dm (Element t as cs) path = Inr out"
  shows "\<exists>children. out = ''<'' @ t @ concat (map renderAttr as) @ ''>'' @ children @ ''</'' @ t @ ''>''"
  using assms
  by (subst (asm) renderNode.simps)
     (auto simp: Let_def split: option.splits difference.splits sum.splits)

text \<open>
  C10: the result of \<open>escapeHtml\<close> holds no less-than sign, greater-than sign, double
  quote or single quote, and each of its ampersands starts one of the five entities. A text
  node is rendered as its escaped \<open>value\<close>, or, when a text entry is registered at its
  path, as one \<open>span\<close> per segment around the escaped \<open>content\<close> of the segment. An
  element that renders is its tag name, then each attribute as a space, the name, and the
  value between double quotes exactly as the tree holds it, then the rendered children and
  the closing tag.
\<close>

theorem C10_escaped_text_raw_attributes:
  \<open>(\<forall>x \<in> set (escapeHtml s). x \<notin> {CHR ''<'', CHR ''>'', CHR 0x22, CHR 0x27})
   \<and> amp_starts_entity (escapeHtml s)
   \<and> renderNode dm (TextNode v) path
       = Inr (case Map_get dm (Some path) of
                Some (Text p changes) \<Rightarrow>
                  concat (map (\<lambda>c. ''<span class="diff-'' @ typeString (ctype c) @ ''">''
                                     @ escapeHtml (content c) @ ''</span>'') changes)
              | _ \<Rightarrow> escapeHtml v)
   \<and> (renderNode dm (Element t as cs) path = Inr out \<longrightarrow>
        (\<exists>children. out = ''<'' @ t @ concat (map (\<lambda>(n, v). '' '' @ n @ ''="'' @ v @ ''"'') as)
                              @ ''>'' @ children @ ''</'' @ t @ ''>''))\<close>
proof -
  have a: "\<forall>x \<in> set (escapeHtml s). x \<notin> {CHR ''<'', CHR ''>'', CHR 0x22, CHR 0x27}"
    using escapeHtml_no_markup by blast
  have r: \<open>renderChange = (\<lambda>c. ''<span class="diff-'' @ typeString (ctype c) @ ''">''
                                     @ escapeHtml (content c) @ ''</span>'')\<close>
    by (rule ext) (simp add: renderChange_def)
  have q: \<open>renderAttr = (\<lambda>(n, v). '' '' @ n @ ''="'' @ v @ ''"'')\<close>
    by (rule ext) (simp add: renderAttr_def split: prod.splits)
  show ?thesis
    using a escapeHtml_amp [of s] renderNode_text [of dm v path]
      renderNode_element [of dm t as cs path out]
    unfolding r q by blast
qed


theorem C10_escaped_text_raw_attributes_witness:
  \<open>escapeHtml ''a<b>&"c"'' = ''a&lt;b&gt;&amp;&quot;c&quot;''
   \<and> set (escapeHtml ''a<b>&"c"'') \<inter> {CHR ''<'', CHR ''>'', CHR 0x22, CHR 0x27} = {}
   \<and> amp_starts_entity (escapeHtml ''a<b>&"c"'')
   \<and> renderNode [] (TextNode ''1 < 2'') ''0/0'' = Inr ''1 &lt; 2''
   \<and> renderNode [] (Element ''a'' [(''title'', ''x"><b'')] [TextNode ''1 < 2'']) ''0''
       = Inr ''<a title="x"><b">1 &lt; 2</a>''
   \<and> (\<exists>children. ''<a title="x"><b">1 &lt; 2</a>''
         = ''<a title="x"><b">'' @ children @ ''</a>'')\<close>
proof -
  have e: \<open>escapeHtml ''a<b>&"c"'' = ''a&lt;b&gt;&amp;&quot;c&quot;''\<close>
    by (simp add: escapeHtml_def replaceAll_def)
  have t: \<open>escapeHtml ''1 < 2'' = ''1 &lt; 2''\<close>
    by (simp add: escapeHtml_def replaceAll_def)
  have r: \<open>renderNode [] (Element ''a'' [(''title'', ''x"><b'')] [TextNode ''1 < 2'']) ''0''
       = Inr ''<a title="x"><b">1 &lt; 2</a>''\<close>
    by code_simp
  note c = C10_escaped_text_raw_attributes [of \<open>''a<b>&"c"''\<close> "[]" "''1 < 2''" "''0/0''"
      "''a''" \<open>[(''title'', ''x"><b'')]\<close> "[TextNode ''1 < 2'']"
      \<open>''<a title="x"><b">1 &lt; 2</a>''\<close>]
  note c' = C10_escaped_text_raw_attributes [of \<open>''a<b>&"c"''\<close> "[]" "''1 < 2''" "''0''"
      "''a''" \<open>[(''title'', ''x"><b'')]\<close> "[TextNode ''1 < 2'']"
      \<open>''<a title="x"><b">1 &lt; 2</a>''\<close>]
  from c have \<open>\<forall>x \<in> set (escapeHtml ''a<b>&"c"''). x \<notin> {CHR ''<'', CHR ''>'', CHR 0x22, CHR 0x27}\<close>
    by (rule conjunct1)
  then have c1: \<open>set (escapeHtml ''a<b>&"c"'') \<inter> {CHR ''<'', CHR ''>'', CHR 0x22, CHR 0x27} = {}\<close>
    by blast
  from c have c2: \<open>amp_starts_entity (escapeHtml ''a<b>&"c"'')\<close>
    by (rule conjunct1 [OF conjunct2])
  from c have c3: \<open>renderNode [] (TextNode ''1 < 2'') ''0/0'' = Inr ''1 &lt; 2''\<close>
    by (simp add: Map_get_def t)
  from c' r have c4: \<open>\<exists>children. ''<a title="x"><b">1 &lt; 2</a>''
         = ''<a title="x"><b">'' @ children @ ''</a>''\<close>
    by simp
  show ?thesis
    by (rule conjI [OF e conjI [OF c1 conjI [OF c2 conjI [OF c3 conjI [OF r c4]]]]])
qed

end
